theory Spec2Isabelle
  imports Complex_Main
begin

section \<open>Numbers and series\<close>

text \<open>
  The analytics of \<^verbatim>\<open>src/analysis/returns.py\<close> work on pandas series of
  64-bit floats. A float is modelled by the real number it stands for, or one of
  the three special values of IEEE arithmetic. Rounding, overflow to infinity
  and the sign of zero are not modelled: arithmetic on finite values is exact,
  and a zero divisor counts as positive zero.
\<close>

datatype fl = NaN | NInf | Fin real | PInf

type_synonym series = "fl list"

fun is_finite :: "fl \<Rightarrow> bool" where
  "is_finite (Fin _) = True"
| "is_finite _ = False"

fun fl_neg :: "fl \<Rightarrow> fl" where
  "fl_neg NaN = NaN"
| "fl_neg NInf = PInf"
| "fl_neg (Fin a) = Fin (- a)"
| "fl_neg PInf = NInf"

fun fl_add :: "fl \<Rightarrow> fl \<Rightarrow> fl" where
  "fl_add NaN _ = NaN"
| "fl_add _ NaN = NaN"
| "fl_add (Fin a) (Fin b) = Fin (a + b)"
| "fl_add PInf NInf = NaN"
| "fl_add NInf PInf = NaN"
| "fl_add PInf _ = PInf"
| "fl_add _ PInf = PInf"
| "fl_add NInf _ = NInf"
| "fl_add _ NInf = NInf"

definition fl_sub :: "fl \<Rightarrow> fl \<Rightarrow> fl" where
  "fl_sub x y = fl_add x (fl_neg y)"

text \<open>The sign of an infinite product or quotient: the infinity \<open>x\<close> when the
  other operand \<open>s\<close> is positive, its negation when \<open>s\<close> is negative.\<close>

definition signed_inf :: "fl \<Rightarrow> real \<Rightarrow> fl" where
  "signed_inf x s = (if 0 < s then x else fl_neg x)"

fun fl_mul :: "fl \<Rightarrow> fl \<Rightarrow> fl" where
  "fl_mul NaN _ = NaN"
| "fl_mul _ NaN = NaN"
| "fl_mul (Fin a) (Fin b) = Fin (a * b)"
| "fl_mul (Fin a) y = (if a = 0 then NaN else signed_inf y a)"
| "fl_mul x (Fin b) = (if b = 0 then NaN else signed_inf x b)"
| "fl_mul PInf y = y"
| "fl_mul NInf y = fl_neg y"

fun fl_div :: "fl \<Rightarrow> fl \<Rightarrow> fl" where
  "fl_div NaN _ = NaN"
| "fl_div _ NaN = NaN"
| "fl_div (Fin a) (Fin b) =
     (if b \<noteq> 0 then Fin (a / b)
      else if 0 < a then PInf else if a < 0 then NInf else NaN)"
| "fl_div (Fin a) _ = Fin 0"
| "fl_div x (Fin b) = (if 0 \<le> b then x else fl_neg x)"
| "fl_div _ _ = NaN"

text \<open>\<^verbatim>\<open>np.log\<close> and \<^verbatim>\<open>np.sqrt\<close> return NaN outside their domain and raise
  nothing.\<close>

fun fl_log :: "fl \<Rightarrow> fl" where
  "fl_log (Fin a) = (if 0 < a then Fin (ln a) else if a = 0 then NInf else NaN)"
| "fl_log PInf = PInf"
| "fl_log _ = NaN"

fun fl_sqrt :: "fl \<Rightarrow> fl" where
  "fl_sqrt (Fin a) = (if 0 \<le> a then Fin (sqrt a) else NaN)"
| "fl_sqrt PInf = PInf"
| "fl_sqrt _ = NaN"

text \<open>The power of a float by a finite exponent, as C's \<^verbatim>\<open>pow\<close> defines it:
  anything to the power 0 is 1, a negative base takes integer exponents only.\<close>

definition is_integer :: "real \<Rightarrow> bool" where
  "is_integer e = (e = of_int \<lfloor>e\<rfloor>)"

fun fl_pow :: "fl \<Rightarrow> real \<Rightarrow> fl" where
  "fl_pow x e =
     (if e = 0 then Fin 1
      else case x of
        NaN \<Rightarrow> NaN
      | Fin b \<Rightarrow>
          (if 0 < b then Fin (b powr e)
           else if b = 0 then (if 0 < e then Fin 0 else PInf)
           else if is_integer e then Fin (b powi \<lfloor>e\<rfloor>)
           else NaN)
      | PInf \<Rightarrow> (if 0 < e then PInf else Fin 0)
      | NInf \<Rightarrow>
          (if 0 < e then (if is_integer e \<and> odd \<lfloor>e\<rfloor> then NInf else PInf)
           else Fin 0))"

text \<open>The order of floats: every comparison with NaN is false.\<close>

fun fl_less :: "fl \<Rightarrow> fl \<Rightarrow> bool" where
  "fl_less NaN _ = False"
| "fl_less _ NaN = False"
| "fl_less (Fin a) (Fin b) = (a < b)"
| "fl_less NInf NInf = False"
| "fl_less NInf _ = True"
| "fl_less PInf _ = False"
| "fl_less (Fin _) PInf = True"
| "fl_less (Fin _) NInf = False"

definition fl_max :: "fl \<Rightarrow> fl \<Rightarrow> fl" where
  "fl_max x y = (if x = NaN \<or> y = NaN then NaN else if fl_less x y then y else x)"

definition fl_min :: "fl \<Rightarrow> fl \<Rightarrow> fl" where
  "fl_min x y = (if x = NaN \<or> y = NaN then NaN else if fl_less y x then y else x)"


section \<open>The pandas operations the analytics call\<close>

text \<open>
  A series is the list of its values in index order; the timestamps take no part
  in any computation below, since every binary operation is between series on
  one and the same index. The missing value of a float series is NaN.
\<close>

definition isna :: "fl \<Rightarrow> bool" where
  "isna x = (x = NaN)"

text \<open>\<^verbatim>\<open>s.dropna()\<close>: the values that are not missing, in order.\<close>

definition dropna :: "series \<Rightarrow> series" where
  "dropna xs = filter (\<lambda>x. \<not> isna x) xs"

text \<open>\<^verbatim>\<open>s.shift(1)\<close>: every value moves one place down, the first place is
  missing, the last value is lost.\<close>

fun shift1 :: "series \<Rightarrow> series" where
  "shift1 [] = []"
| "shift1 (x # xs) = NaN # butlast (x # xs)"

text \<open>\<^verbatim>\<open>s.ffill()\<close>: a missing value takes the last value seen before it;
  leading missing values stay.\<close>

fun ffill_from :: "fl \<Rightarrow> series \<Rightarrow> series" where
  "ffill_from prev [] = []"
| "ffill_from prev (x # xs) =
     (if isna x then prev # ffill_from prev xs else x # ffill_from x xs)"

definition ffill :: "series \<Rightarrow> series" where
  "ffill xs = ffill_from NaN xs"

text \<open>
  \<^verbatim>\<open>s.pct_change()\<close> computes \<^verbatim>\<open>data / data.shift(1) - 1\<close>. What \<^verbatim>\<open>data\<close>
  is depends on the default of the keyword \<^verbatim>\<open>fill_method\<close>, which the source
  does not pass: pandas before 3.0 forward-fills the series first, later releases
  take the series as it is. The default of the installed release is a parameter
  of the model.
\<close>

datatype fill_method = Pad | NoFill

definition pct_change :: "fill_method \<Rightarrow> series \<Rightarrow> series" where
  "pct_change fm xs =
     (let data = (case fm of Pad \<Rightarrow> ffill xs | NoFill \<Rightarrow> xs)
      in map (\<lambda>q. fl_sub q (Fin 1)) (map2 fl_div data (shift1 data)))"

text \<open>
  The cumulative operations and the reductions skip missing values
  (\<^verbatim>\<open>skipna=True\<close>): \<^verbatim>\<open>cumprod\<close> runs over the series with 1 in the missing
  places and \<^verbatim>\<open>cummax\<close> with minus infinity there, and both write NaN back into
  those places of the result.
\<close>

fun cumprod_from :: "fl \<Rightarrow> series \<Rightarrow> series" where
  "cumprod_from acc [] = []"
| "cumprod_from acc (x # xs) =
     (let acc' = fl_mul acc (if isna x then Fin 1 else x)
      in (if isna x then NaN else acc') # cumprod_from acc' xs)"

definition cumprod :: "series \<Rightarrow> series" where
  "cumprod xs = cumprod_from (Fin 1) xs"

fun cummax_from :: "fl \<Rightarrow> series \<Rightarrow> series" where
  "cummax_from acc [] = []"
| "cummax_from acc (x # xs) =
     (let acc' = fl_max acc (if isna x then NInf else x)
      in (if isna x then NaN else acc') # cummax_from acc' xs)"

definition cummax :: "series \<Rightarrow> series" where
  "cummax xs = cummax_from NInf xs"

text \<open>\<^verbatim>\<open>s.prod()\<close>: the product of the values that are not missing, 1 when
  there are none.\<close>

definition prod_s :: "series \<Rightarrow> fl" where
  "prod_s xs = foldl fl_mul (Fin 1) (map (\<lambda>x. if isna x then Fin 1 else x) xs)"

definition sum_fl :: "series \<Rightarrow> fl" where
  "sum_fl xs = foldl fl_add (Fin 0) xs"

text \<open>\<^verbatim>\<open>s.min()\<close>: the least of the values that are not missing, NaN when
  there are none.\<close>

definition min_s :: "series \<Rightarrow> fl" where
  "min_s xs =
     (case dropna xs of [] \<Rightarrow> NaN | v # vs \<Rightarrow> foldl fl_min v vs)"

text \<open>
  \<^verbatim>\<open>s.std()\<close> is the square root of the sample variance (\<^verbatim>\<open>ddof=1\<close>) of the
  values that are not missing. pandas computes it in doubles, and whether the
  result is exactly zero depends on the rounding of every step, which real
  numbers do not show: the analytics below therefore take the function \<open>std\<close> as
  a parameter. \<open>std_exact\<close> is the two-pass algorithm of pandas in exact
  arithmetic (the mean first, then the squared deviations from it, the missing
  places counting 0 in both sums, NaN with fewer than two values); the doubles
  agree with it where no step rounds, as on two equal values.
\<close>

definition var_exact :: "series \<Rightarrow> fl" where
  "var_exact xs =
     (let cnt = length (dropna xs) in
      if cnt \<le> 1 then NaN
      else
        let vals = map (\<lambda>x. if isna x then Fin 0 else x) xs;
            avg = fl_div (sum_fl vals) (Fin (real cnt));
            sqr = map (\<lambda>x. if isna x then Fin 0
                            else fl_mul (fl_sub avg x) (fl_sub avg x)) xs
        in fl_div (sum_fl sqr) (Fin (real (cnt - 1))))"

definition std_exact :: "series \<Rightarrow> fl" where
  "std_exact xs = fl_sqrt (var_exact xs)"

section \<open>Return and risk analytics (\<^verbatim>\<open>src/analysis/returns.py\<close>)\<close>

datatype py_error = ValueError string | ZeroDivisionError

definition calculate_returns ::
  "fill_method \<Rightarrow> series \<Rightarrow> string \<Rightarrow> py_error + series" where
  "calculate_returns fm prices method =
     (if method = ''simple'' then Inr (pct_change fm prices)
      else if method = ''log'' then
        Inr (map fl_log (map2 fl_div prices (shift1 prices)))
      else Inl (ValueError (''Unknown method: '' @ method)))"

definition calculate_cumulative_returns :: "series \<Rightarrow> series" where
  "calculate_cumulative_returns returns =
     map (\<lambda>x. fl_sub x (Fin 1)) (cumprod (map (fl_add (Fin 1)) returns))"

text \<open>
  \<^verbatim>\<open>n_periods / periods_per_year\<close> divides two Python integers and
  \<^verbatim>\<open>1 / years\<close> an integer by a Python float: both raise ZeroDivisionError on
  a zero divisor. The power is taken on a numpy float and raises nothing.
\<close>

definition calculate_annualized_return :: "series \<Rightarrow> int \<Rightarrow> py_error + fl" where
  "calculate_annualized_return returns periods_per_year =
     (let total_return = fl_sub (prod_s (map (fl_add (Fin 1)) returns)) (Fin 1);
          n_periods = length returns
      in if periods_per_year = 0 then Inl ZeroDivisionError
         else
           let years = real n_periods / real_of_int periods_per_year
           in if years = 0 then Inl ZeroDivisionError
              else Inr (fl_sub (fl_pow (fl_add (Fin 1) total_return) (1 / years))
                               (Fin 1)))"

definition calculate_volatility :: "(series \<Rightarrow> fl) \<Rightarrow> series \<Rightarrow> int \<Rightarrow> fl" where
  "calculate_volatility std returns periods_per_year =
     fl_mul (std returns) (fl_sqrt (Fin (real_of_int periods_per_year)))"

definition calculate_sharpe_ratio ::
  "(series \<Rightarrow> fl) \<Rightarrow> series \<Rightarrow> fl \<Rightarrow> int \<Rightarrow> py_error + fl" where
  "calculate_sharpe_ratio std returns risk_free_rate periods_per_year =
     (case calculate_annualized_return returns periods_per_year of
        Inl e \<Rightarrow> Inl e
      | Inr ann_return \<Rightarrow>
          let ann_vol = calculate_volatility std returns periods_per_year
          in Inr (fl_div (fl_sub ann_return risk_free_rate) ann_vol))"

definition calculate_max_drawdown :: "series \<Rightarrow> fl" where
  "calculate_max_drawdown prices =
     (let cm = cummax prices;
          drawdown = map2 fl_div (map2 fl_sub prices cm) cm
      in min_s drawdown)"

section \<open>Market data fetcher (\<^verbatim>\<open>src/data/fetcher.py\<close>)\<close>

text \<open>
  The provider's \<^verbatim>\<open>yf.download\<close> is a parameter: a function from the request
  it receives to whatever it answers (a table, or the error it raises, which the
  fetcher passes on untouched).
\<close>

datatype tickers = Single string | Many "string list"

datatype download_request =
    DownloadRange tickers string string
  | DownloadPeriod tickers string

text \<open>The truth value of an optional string: \<^verbatim>\<open>None\<close> and the empty string
  are false.\<close>

fun truthy :: "string option \<Rightarrow> bool" where
  "truthy None = False"
| "truthy (Some s) = (s \<noteq> [])"

definition get_stock_data ::
  "(download_request \<Rightarrow> 'r) \<Rightarrow> tickers \<Rightarrow> string option \<Rightarrow> string option \<Rightarrow> string \<Rightarrow> 'r"
  where
  "get_stock_data download tks start end' period =
     (if truthy start \<and> truthy end'
      then download (DownloadRange tks (the start) (the end'))
      else download (DownloadPeriod tks period))"

text \<open>
  A character is a Unicode code point below 256, which is what \<open>char\<close> holds.
  \<^verbatim>\<open>str.isdigit\<close> is true of a string with at least one character whose
  characters are all digits; among these code points the digits are 0 to 9 and
  the superscripts two, three and one (B2, B3 and B9).
\<close>

definition is_digit_char :: "char \<Rightarrow> bool" where
  "is_digit_char c = (c \<in> set (''0123456789'' @ [CHR 0xB2, CHR 0xB3, CHR 0xB9]))"

definition isdigit :: "string \<Rightarrow> bool" where
  "isdigit s = (s \<noteq> [] \<and> list_all is_digit_char s)"

definition get_korean_stock_data ::
  "(download_request \<Rightarrow> 'r) \<Rightarrow> string \<Rightarrow> string option \<Rightarrow> string option \<Rightarrow> string \<Rightarrow> 'r"
  where
  "get_korean_stock_data download ticker start end' period =
     (let ticker' = (if isdigit ticker then ticker @ ''.KS'' else ticker)
      in get_stock_data download (Single ticker') start end' period)"

definition get_crypto_data ::
  "(download_request \<Rightarrow> 'r) \<Rightarrow> tickers \<Rightarrow> string option \<Rightarrow> string option \<Rightarrow> string \<Rightarrow> 'r"
  where
  "get_crypto_data download symbols start end' period =
     get_stock_data download symbols start end' period"

section \<open>Properties of the return series\<close>

lemma fl_div_NaN_right: "fl_div x NaN = NaN"
  by (cases x) simp_all

lemma fl_sub_Fin: "fl_sub (Fin a) (Fin b) = Fin (a - b)"
  by (simp add: fl_sub_def)

lemma fl_sub_NaN: "fl_sub NaN y = NaN"
  by (simp add: fl_sub_def)

lemma length_ffill_from: "length (ffill_from prev xs) = length xs"
  by (induction xs arbitrary: prev) simp_all

lemma length_shift1: "length (shift1 xs) = length xs"
  by (cases xs) simp_all

lemma ffill_from_finite: "ffill_from prev (map Fin ps) = map Fin ps"
  by (induction ps arbitrary: prev) (simp_all add: isna_def)

lemma shift1_nth_0: "xs \<noteq> [] \<Longrightarrow> shift1 xs ! 0 = NaN"
  by (cases xs) simp_all

lemma shift1_nth_Suc: "Suc k < length xs \<Longrightarrow> shift1 xs ! Suc k = xs ! k"
  by (cases xs) (simp_all add: nth_butlast del: butlast.simps)

lemma ratio_nth_0:
  assumes "xs \<noteq> []"
  shows "map2 fl_div xs (shift1 xs) ! 0 = NaN"
  using assms by (cases xs) (simp_all add: fl_div_NaN_right)

lemma ratio_nth_Suc:
  assumes "Suc k < length xs"
  shows "map2 fl_div xs (shift1 xs) ! Suc k = fl_div (xs ! Suc k) (xs ! k)"
  using assms by (simp add: length_shift1 shift1_nth_Suc)

lemma pct_change_length: "length (pct_change fm xs) = length xs"
  by (cases fm) (simp_all add: pct_change_def Let_def ffill_def length_ffill_from length_shift1)

lemma pct_change_nth_0: "xs \<noteq> [] \<Longrightarrow> pct_change fm xs ! 0 = NaN"
proof -
  assume ne: "xs \<noteq> []"
  define data where "data = (case fm of Pad \<Rightarrow> ffill xs | NoFill \<Rightarrow> xs)"
  have len: "length data = length xs"
    by (cases fm) (simp_all add: data_def ffill_def length_ffill_from)
  with ne have "data \<noteq> []" by auto
  then have "map2 fl_div data (shift1 data) ! 0 = NaN" by (rule ratio_nth_0)
  moreover have "0 < length (map2 fl_div data (shift1 data))"
    using ne len by (simp add: length_shift1)
  ultimately show ?thesis
    unfolding pct_change_def data_def [symmetric] Let_def
    by (simp add: fl_sub_NaN length_shift1)
qed

lemma pct_change_finite_nth:
  assumes "Suc k < length ps" and "ps ! k \<noteq> 0"
  shows "pct_change fm (map Fin ps) ! Suc k = Fin (ps ! Suc k / ps ! k - 1)"
proof -
  have data: "(case fm of Pad \<Rightarrow> ffill (map Fin ps) | NoFill \<Rightarrow> map Fin ps) = map Fin ps"
    by (cases fm) (simp_all add: ffill_def ffill_from_finite)
  have "map2 fl_div (map Fin ps) (shift1 (map Fin ps)) ! Suc k
        = fl_div (map Fin ps ! Suc k) (map Fin ps ! k)"
    using assms(1) by (intro ratio_nth_Suc) simp
  also have "\<dots> = Fin (ps ! Suc k / ps ! k)"
    using assms by simp
  finally have r: "map2 fl_div (map Fin ps) (shift1 (map Fin ps)) ! Suc k = Fin (ps ! Suc k / ps ! k)" .
  have "Suc k < length (map2 fl_div (map Fin ps) (shift1 (map Fin ps)))"
    using assms(1) by (simp add: length_shift1)
  then show ?thesis
    unfolding pct_change_def data Let_def
    by (simp only: nth_map r fl_sub_Fin)
qed

lemma pct_change_finite_explicit:
  assumes "ps \<noteq> []" and "\<forall>p\<in>set ps. p \<noteq> 0"
  shows "pct_change fm (map Fin ps) =
         NaN # map (\<lambda>k. Fin (ps ! Suc k / ps ! k - 1)) [0..<length ps - 1]"
proof (rule nth_equalityI)
  show "length (pct_change fm (map Fin ps)) =
        length (NaN # map (\<lambda>k. Fin (ps ! Suc k / ps ! k - 1)) [0..<length ps - 1])"
    using assms(1) by (simp add: pct_change_length)
next
  fix i assume "i < length (pct_change fm (map Fin ps))"
  then have i: "i < length ps" by (simp add: pct_change_length)
  show "pct_change fm (map Fin ps) ! i =
        (NaN # map (\<lambda>k. Fin (ps ! Suc k / ps ! k - 1)) [0..<length ps - 1]) ! i"
  proof (cases i)
    case 0
    then show ?thesis using assms(1) by (simp add: pct_change_nth_0)
  next
    case (Suc k)
    with i have k: "Suc k < length ps" by simp
    then have "ps ! k \<noteq> 0" using assms(2) by simp
    with k Suc show ?thesis by (simp add: pct_change_finite_nth)
  qed
qed

lemma dropna_map_Fin: "dropna (map (\<lambda>k. Fin (f k)) ks) = map (\<lambda>k. Fin (f k)) ks"
  by (induction ks) (simp_all add: dropna_def isna_def)

lemma dropna_NaN_Cons: "dropna (NaN # xs) = dropna xs"
  by (simp add: dropna_def isna_def)

lemma log_returns_length:
  "length (map fl_log (map2 fl_div xs (shift1 xs))) = length xs"
  by (simp add: length_shift1)

lemma log_returns_nth_0:
  "xs \<noteq> [] \<Longrightarrow> map fl_log (map2 fl_div xs (shift1 xs)) ! 0 = NaN"
  using ratio_nth_0 [of xs] by (simp add: length_shift1)

lemma log_returns_finite_nth:
  assumes "Suc k < length ps" and "0 < ps ! k" and "0 < ps ! Suc k"
  shows "map fl_log (map2 fl_div (map Fin ps) (shift1 (map Fin ps))) ! Suc k
         = Fin (ln (ps ! Suc k / ps ! k))"
proof -
  have "map2 fl_div (map Fin ps) (shift1 (map Fin ps)) ! Suc k
        = fl_div (map Fin ps ! Suc k) (map Fin ps ! k)"
    using assms(1) by (intro ratio_nth_Suc) simp
  also have "\<dots> = Fin (ps ! Suc k / ps ! k)"
    using assms by simp
  finally have r: "map2 fl_div (map Fin ps) (shift1 (map Fin ps)) ! Suc k
                   = Fin (ps ! Suc k / ps ! k)" .
  have "Suc k < length (map2 fl_div (map Fin ps) (shift1 (map Fin ps)))"
    using assms(1) by (simp add: length_shift1)
  then show ?thesis
    using assms(2,3) by (simp only: nth_map r) simp
qed

lemma log_returns_finite_explicit:
  assumes "ps \<noteq> []" and "\<forall>p\<in>set ps. 0 < p"
  shows "map fl_log (map2 fl_div (map Fin ps) (shift1 (map Fin ps))) =
         NaN # map (\<lambda>k. Fin (ln (ps ! Suc k / ps ! k))) [0..<length ps - 1]"
proof (rule nth_equalityI)
  show "length (map fl_log (map2 fl_div (map Fin ps) (shift1 (map Fin ps)))) =
        length (NaN # map (\<lambda>k. Fin (ln (ps ! Suc k / ps ! k))) [0..<length ps - 1])"
    using assms(1) by (simp add: length_shift1)
next
  fix i assume "i < length (map fl_log (map2 fl_div (map Fin ps) (shift1 (map Fin ps))))"
  then have i: "i < length ps" by (simp add: length_shift1)
  show "map fl_log (map2 fl_div (map Fin ps) (shift1 (map Fin ps))) ! i =
        (NaN # map (\<lambda>k. Fin (ln (ps ! Suc k / ps ! k))) [0..<length ps - 1]) ! i"
  proof (cases i)
    case 0
    have "map Fin ps \<noteq> []" using assms(1) by simp
    from log_returns_nth_0 [OF this] 0 show ?thesis by simp
  next
    case (Suc k)
    with i have k: "Suc k < length ps" by simp
    then have "0 < ps ! k" "0 < ps ! Suc k" using assms(2) by simp_all
    from log_returns_finite_nth [OF k this]
    have "map fl_log (map2 fl_div (map Fin ps) (shift1 (map Fin ps))) ! Suc k
          = Fin (ln (ps ! Suc k / ps ! k))" .
    moreover have "(NaN # map (\<lambda>k. Fin (ln (ps ! Suc k / ps ! k))) [0..<length ps - 1]) ! Suc k
          = Fin (ln (ps ! Suc k / ps ! k))"
    proof -
      from k have "k < length ps - 1" by simp
      then show ?thesis by simp
    qed
    ultimately show ?thesis unfolding Suc by (rule trans [OF _ sym])
  qed
qed

subsection \<open>Unknown methods\<close>

text \<open>
  Claim C4. For every price series and every method string other than
  \<open>''simple''\<close> and \<open>''log''\<close>, \<open>calculate_returns\<close> raises ValueError with the
  message \<^verbatim>\<open>Unknown method: \<close> followed by the offending method, and returns no
  series.
\<close>
theorem calculate_returns_unknown_method:
  assumes "method \<noteq> ''simple''" and "method \<noteq> ''log''"
  shows "calculate_returns fm prices method = Inl (ValueError (''Unknown method: '' @ method))
         \<and> (\<forall>rs. calculate_returns fm prices method \<noteq> Inr rs)"
  using assms by (simp add: calculate_returns_def)

theorem calculate_returns_unknown_method_witness:
  "calculate_returns NoFill [Fin 100, Fin 110] ''bogus''
     = Inl (ValueError ''Unknown method: bogus'')"
  using calculate_returns_unknown_method [of "''bogus''" NoFill "[Fin 100, Fin 110]"]
  by simp

subsection \<open>The length of a return series\<close>

text \<open>
  Claim C1 says the return series is one element shorter than the price series.
  It is not: on the prices 100, 110, 121 the simple returns are NaN, 0.1, 0.1,
  three elements and not two.
\<close>
theorem calculate_returns_drops_first_counterexample:
  "calculate_returns NoFill [Fin 100, Fin 110, Fin 121] ''simple''
     = Inr [NaN, Fin (1 / 10), Fin (1 / 10)]
   \<and> length [NaN, Fin (1 / 10), Fin (1 / 10)]
       \<noteq> length [Fin 100, Fin 110, Fin 121 :: fl] - 1"
  by (simp add: calculate_returns_def pct_change_def fl_sub_def)

text \<open>
  Claim C1, as the code has it. For both methods the return series has the
  length of the price series, and the first period of a non-empty series is kept
  as a NaN placeholder. Dropping the missing values, as \<^verbatim>\<open>performance_summary\<close>
  does with \<^verbatim>\<open>dropna\<close>, leaves one element less than the prices when these
  are positive.
\<close>
theorem calculate_returns_keeps_length:
  assumes "method = ''simple'' \<or> method = ''log''"
  shows "(\<exists>rs. calculate_returns fm prices method = Inr rs
              \<and> length rs = length prices
              \<and> (prices \<noteq> [] \<longrightarrow> rs ! 0 = NaN))
         \<and> ((\<forall>p\<in>set ps. 0 < p) \<longrightarrow>
              (\<exists>rs. calculate_returns fm (map Fin ps) method = Inr rs
                    \<and> length (dropna rs) = length ps - 1))"
proof (intro conjI impI)
  show "\<exists>rs. calculate_returns fm prices method = Inr rs
              \<and> length rs = length prices \<and> (prices \<noteq> [] \<longrightarrow> rs ! 0 = NaN)"
    using assms
    by (auto simp: calculate_returns_def pct_change_length pct_change_nth_0
                   log_returns_length log_returns_nth_0 simp del: length_map nth_map map_map)
next
  assume pos: "\<forall>p\<in>set ps. 0 < p"
  show "\<exists>rs. calculate_returns fm (map Fin ps) method = Inr rs
             \<and> length (dropna rs) = length ps - 1"
  proof (cases "ps = []")
    case True
    with assms show ?thesis
      by (cases fm)
         (auto simp: calculate_returns_def pct_change_def Let_def ffill_def dropna_def)
  next
    case False
    from pos have nz: "\<forall>p\<in>set ps. p \<noteq> 0" by auto
    from assms show ?thesis
    proof
      assume "method = ''simple''"
      then show ?thesis
        by (simp add: calculate_returns_def pct_change_finite_explicit [OF False nz]
                      dropna_NaN_Cons dropna_map_Fin)
    next
      assume "method = ''log''"
      then show ?thesis
        by (simp add: calculate_returns_def log_returns_finite_explicit [OF False pos]
                      dropna_NaN_Cons dropna_map_Fin del: map_map)
    qed
  qed
qed

theorem calculate_returns_keeps_length_witness:
  "(\<exists>rs. calculate_returns Pad [Fin 100, Fin 110, Fin 121] ''log'' = Inr rs
         \<and> length rs = 3 \<and> rs ! 0 = NaN)
   \<and> (\<exists>rs. calculate_returns Pad (map Fin [100, 110, 121]) ''log'' = Inr rs
         \<and> length (dropna rs) = 2)"
  using calculate_returns_keeps_length
          [of "''log''" Pad "[Fin 100, Fin 110, Fin 121]" "[100, 110, 121]"]
  by (simp add: eval_nat_numeral)

subsection \<open>The return formulas\<close>

text \<open>
  Claim C2. For every price series of positive values and every index \<open>i > 0\<close>
  of it, the simple returns hold \<open>(P[i] - P[i-1]) / P[i-1]\<close> at position \<open>i\<close>
  (pandas computes \<open>P[i] / P[i-1] - 1\<close>, which is the same real number).
\<close>
theorem simple_returns_formula:
  assumes "\<forall>p\<in>set ps. 0 < p" and "0 < i" and "i < length ps"
  shows "\<exists>rs. calculate_returns fm (map Fin ps) ''simple'' = Inr rs
              \<and> rs ! i = Fin ((ps ! i - ps ! (i - 1)) / ps ! (i - 1))"
proof -
  from assms(2) obtain k where i: "i = Suc k" by (cases i) auto
  with assms(3) have k: "Suc k < length ps" by simp
  then have pk: "0 < ps ! k" using assms(1) by simp
  then have "ps ! Suc k / ps ! k - 1 = (ps ! Suc k - ps ! k) / ps ! k"
    by (simp add: diff_divide_distrib)
  with k pk show ?thesis
    by (simp add: calculate_returns_def i pct_change_finite_nth)
qed

theorem simple_returns_formula_witness:
  "\<exists>rs. calculate_returns NoFill (map Fin [100, 110, 121]) ''simple'' = Inr rs
        \<and> rs ! 2 = Fin (1 / 10)"
  using simple_returns_formula [of "[100, 110, 121]" 2 NoFill]
  by simp

text \<open>
  Claim C3. For every price series of positive values and every index \<open>i > 0\<close>
  of it, the log returns hold \<open>ln (P[i] / P[i-1])\<close> at position \<open>i\<close>.
\<close>
theorem log_returns_formula:
  assumes "\<forall>p\<in>set ps. 0 < p" and "0 < i" and "i < length ps"
  shows "\<exists>rs. calculate_returns fm (map Fin ps) ''log'' = Inr rs
              \<and> rs ! i = Fin (ln (ps ! i / ps ! (i - 1)))"
proof -
  from assms(2) obtain k where i: "i = Suc k" by (cases i) auto
  with assms(3) have k: "Suc k < length ps" by simp
  then have "0 < ps ! k" "0 < ps ! Suc k" using assms(1) by simp_all
  with k show ?thesis
    by (simp add: calculate_returns_def i log_returns_finite_nth del: nth_map map_map)
qed

theorem log_returns_formula_witness:
  "\<exists>rs. calculate_returns NoFill (map Fin [100, 110, 121]) ''log'' = Inr rs
        \<and> rs ! 2 = Fin (ln (11 / 10))"
  using log_returns_formula [of "[100, 110, 121]" 2 NoFill]
  by simp

section \<open>Compounding\<close>

lemma fl_mul_Fin_one: "fl_mul (Fin 1) x = x"
  by (cases x) (simp_all add: signed_inf_def)

lemma length_cumprod_from: "length (cumprod_from acc xs) = length xs"
  by (induction xs arbitrary: acc) (simp_all add: Let_def)

lemma cumprod_from_finite_nth:
  "i < length qs \<Longrightarrow>
   cumprod_from (Fin a) (map Fin qs) ! i = Fin (a * prod_list (take (Suc i) qs))"
proof (induction qs arbitrary: a i)
  case Nil
  then show ?case by simp
next
  case (Cons q qs)
  show ?case
  proof (cases i)
    case 0
    then show ?thesis by (simp add: isna_def Let_def)
  next
    case (Suc j)
    with Cons.prems have "j < length qs" by simp
    from Cons.IH [OF this, of "a * q"] Suc show ?thesis
      by (simp add: isna_def Let_def mult.assoc)
  qed
qed

lemma prod_list_take_map:
  assumes "i < length rs"
  shows "prod_list (take (Suc i) (map f rs)) = (\<Prod>j\<le>i. f (rs ! j))"
proof -
  have "prod_list (take (Suc i) (map f rs))
        = prod ((!) (take (Suc i) (map f rs))) {0..<length (take (Suc i) (map f rs))}"
    by (rule prod.list_conv_set_nth)
  also have "length (take (Suc i) (map f rs)) = Suc i"
    using assms by simp
  also have "prod ((!) (take (Suc i) (map f rs))) {0..<Suc i} = prod (\<lambda>j. f (rs ! j)) {0..<Suc i}"
    using assms by (intro prod.cong) simp_all
  also have "{0..<Suc i} = {..i}" by auto
  finally show ?thesis .
qed

lemma cumulative_returns_finite_nth:
  assumes "i < length rs"
  shows "calculate_cumulative_returns (map Fin rs) ! i = Fin ((\<Prod>j\<le>i. 1 + rs ! j) - 1)"
proof -
  have m: "map (fl_add (Fin 1)) (map Fin rs) = map Fin (map (\<lambda>x. 1 + x) rs)"
    by simp
  have "cumprod (map Fin (map (\<lambda>x. 1 + x) rs)) ! i
        = Fin (1 * prod_list (take (Suc i) (map (\<lambda>x. 1 + x) rs)))"
    unfolding cumprod_def using assms by (intro cumprod_from_finite_nth) simp
  also have "\<dots> = Fin (\<Prod>j\<le>i. 1 + rs ! j)"
    using assms by (simp add: prod_list_take_map)
  finally have c: "cumprod (map Fin (map (\<lambda>x. 1 + x) rs)) ! i = Fin (\<Prod>j\<le>i. 1 + rs ! j)" .
  have "i < length (cumprod (map Fin (map (\<lambda>x. 1 + x) rs)))"
    using assms by (simp add: cumprod_def length_cumprod_from)
  then show ?thesis
    unfolding calculate_cumulative_returns_def m
    by (simp only: nth_map c fl_sub_Fin)
qed

lemma length_cumulative_returns:
  "length (calculate_cumulative_returns xs) = length xs"
  by (simp add: calculate_cumulative_returns_def cumprod_def length_cumprod_from)

lemma telescope:
  fixes ps :: "real list"
  assumes "\<forall>j\<le>i. ps ! j \<noteq> 0"
  shows "(\<Prod>j\<le>i. ps ! Suc j / ps ! j) = ps ! Suc i / ps ! 0"
  using assms by (induction i) simp_all

text \<open>
  Claim C5. For every return series and every index \<open>i\<close> of it, the cumulative
  returns hold \<open>(\<Prod>j\<le>i. 1 + r[j]) - 1\<close> at position \<open>i\<close>, the return compounded
  over the prefix that ends at \<open>i\<close>; the result has the length of the series, and
  the cumulative returns of 0.1, -0.1 are 0.1, -0.01.
\<close>
theorem cumulative_returns_formula:
  "length (calculate_cumulative_returns (map Fin rs)) = length rs
   \<and> (\<forall>i<length rs.
        calculate_cumulative_returns (map Fin rs) ! i = Fin ((\<Prod>j\<le>i. 1 + rs ! j) - 1))
   \<and> calculate_cumulative_returns [Fin (1 / 10), Fin (- 1 / 10)]
        = [Fin (1 / 10), Fin (- 1 / 100)]"
proof (intro conjI allI impI)
  show "length (calculate_cumulative_returns (map Fin rs)) = length rs"
    by (simp add: length_cumulative_returns)
next
  fix i assume "i < length rs"
  then show "calculate_cumulative_returns (map Fin rs) ! i = Fin ((\<Prod>j\<le>i. 1 + rs ! j) - 1)"
    by (rule cumulative_returns_finite_nth)
next
  show "calculate_cumulative_returns [Fin (1 / 10), Fin (- 1 / 10)]
        = [Fin (1 / 10), Fin (- 1 / 100)]"
    by (simp add: calculate_cumulative_returns_def cumprod_def isna_def Let_def fl_sub_def)
qed

theorem cumulative_returns_formula_witness:
  "calculate_cumulative_returns (map Fin [1 / 10, 1 / 10]) ! 1 = Fin (21 / 100)"
  using cumulative_returns_formula [of "[1 / 10, 1 / 10]"]
  by (simp add: atMost_Suc)

text \<open>
  Claim C10. For every price series of positive values with at least two
  elements, the cumulative returns of its simple returns, the missing first entry
  dropped, hold the total return from the start: \<open>P[i+1] / P[0] - 1\<close> at every
  position \<open>i\<close>.
\<close>
theorem cumulative_simple_returns_total:
  assumes "\<forall>p\<in>set ps. 0 < p" and "2 \<le> length ps" and "i < length ps - 1"
  shows "\<exists>rs. calculate_returns fm (map Fin ps) ''simple'' = Inr rs
              \<and> length (calculate_cumulative_returns (dropna rs)) = length ps - 1
              \<and> calculate_cumulative_returns (dropna rs) ! i = Fin (ps ! (i + 1) / ps ! 0 - 1)"
proof -
  define qs where "qs = map (\<lambda>k. ps ! Suc k / ps ! k - 1) [0..<length ps - 1]"
  from assms(2) have ne: "ps \<noteq> []" by auto
  from assms(1) have nz: "\<forall>p\<in>set ps. p \<noteq> 0" by auto
  have "pct_change fm (map Fin ps) = NaN # map Fin qs"
    by (simp add: pct_change_finite_explicit [OF ne nz] qs_def comp_def)
  then have d: "dropna (pct_change fm (map Fin ps)) = map Fin qs"
    by (simp add: dropna_NaN_Cons dropna_map_Fin)
  have len: "length qs = length ps - 1" by (simp add: qs_def)
  with assms(3) have i: "i < length qs" by simp
  have nzj: "\<forall>j\<le>i. ps ! j \<noteq> 0"
    using nz assms(3) by simp
  have "(\<Prod>j\<le>i. 1 + qs ! j) = (\<Prod>j\<le>i. ps ! Suc j / ps ! j)"
    using assms(3) by (intro prod.cong) (simp_all add: qs_def)
  also have "\<dots> = ps ! Suc i / ps ! 0"
    using nzj by (rule telescope)
  finally have "calculate_cumulative_returns (map Fin qs) ! i = Fin (ps ! Suc i / ps ! 0 - 1)"
    using cumulative_returns_finite_nth [OF i] by simp
  then show ?thesis
    by (simp add: calculate_returns_def d length_cumulative_returns len)
qed

theorem cumulative_simple_returns_total_witness:
  "\<exists>rs. calculate_returns Pad (map Fin [100, 110, 121]) ''simple'' = Inr rs
        \<and> length (calculate_cumulative_returns (dropna rs)) = 2
        \<and> calculate_cumulative_returns (dropna rs) ! 1 = Fin (21 / 100)"
  using cumulative_simple_returns_total [of "[100, 110, 121]" 1 Pad]
  by (simp add: eval_nat_numeral)

section \<open>Annualized return\<close>







section \<open>Maximum drawdown\<close>

lemma fl_max_Fin: "fl_max (Fin a) (Fin b) = Fin (max a b)"
  by (simp add: fl_max_def max_def)

lemma fl_min_Fin: "fl_min (Fin a) (Fin b) = Fin (min a b)"
  by (auto simp: fl_min_def min_def)

lemma length_cummax_from: "length (cummax_from acc xs) = length xs"
  by (induction xs arbitrary: acc) (simp_all add: Let_def)

lemma cummax_from_finite_nth:
  "i < length ps \<Longrightarrow>
   cummax_from (Fin a) (map Fin ps) ! i = Fin (Max (insert a (set (take (Suc i) ps))))"
proof (induction ps arbitrary: a i)
  case Nil
  then show ?case by simp
next
  case (Cons p ps)
  show ?case
  proof (cases i)
    case 0
    then show ?thesis by (simp add: isna_def Let_def fl_max_Fin max.commute)
  next
    case (Suc j)
    with Cons.prems have j: "j < length ps" by simp
    define S where "S = set (take (Suc j) ps)"
    have S: "finite S" "S \<noteq> {}"
      using j by (auto simp: S_def)
    have eq: "Max (insert (max a p) S) = Max (insert a (insert p S))"
      using S by (simp add: max.assoc)
    have lhs: "cummax_from (Fin a) (map Fin (p # ps)) ! i
               = cummax_from (Fin (max a p)) (map Fin ps) ! j"
      by (simp add: Suc isna_def Let_def fl_max_Fin)
    have rhs: "set (take (Suc i) (p # ps)) = insert p S"
      by (simp add: Suc S_def)
    from Cons.IH [OF j, of "max a p"]
    have "cummax_from (Fin (max a p)) (map Fin ps) ! j = Fin (Max (insert (max a p) S))"
      by (simp only: S_def)
    then show ?thesis
      by (simp only: lhs rhs eq)
  qed
qed

lemma cummax_finite_nth:
  assumes "i < length ps"
  shows "cummax (map Fin ps) ! i = Fin (Max (set (take (Suc i) ps)))"
proof (cases ps)
  case Nil
  with assms show ?thesis by simp
next
  case (Cons p qs)
  have start: "cummax (Fin p # map Fin qs) = Fin p # cummax_from (Fin p) (map Fin qs)"
    by (simp add: cummax_def isna_def Let_def fl_max_def)
  show ?thesis
  proof (cases i)
    case 0
    then show ?thesis by (simp add: Cons start)
  next
    case (Suc j)
    with assms Cons have "j < length qs" by simp
    from cummax_from_finite_nth [OF this, of p] Suc show ?thesis
      by (simp add: Cons start del: map_eq_Cons_conv)
  qed
qed

lemma Max_prefix_pos:
  fixes ps :: "real list"
  assumes "i < length ps" and "\<forall>p\<in>set ps. 0 < p"
  shows "0 < Max (set (take (Suc i) ps))"
proof -
  have "Max (set (take (Suc i) ps)) \<in> set (take (Suc i) ps)"
    using assms(1) by (intro Max_in) auto
  then have "Max (set (take (Suc i) ps)) \<in> set ps"
    by (rule in_set_takeD)
  with assms(2) show ?thesis by blast
qed

lemma drawdown_finite:
  assumes "\<forall>p\<in>set ps. 0 < p"
  shows "map2 fl_div (map2 fl_sub (map Fin ps) (cummax (map Fin ps))) (cummax (map Fin ps))
         = map Fin (map (\<lambda>t. (ps ! t - Max (set (take (Suc t) ps)))
                               / Max (set (take (Suc t) ps))) [0..<length ps])"
proof (rule nth_equalityI)
  show "length (map2 fl_div (map2 fl_sub (map Fin ps) (cummax (map Fin ps)))
                  (cummax (map Fin ps)))
        = length (map Fin (map (\<lambda>t. (ps ! t - Max (set (take (Suc t) ps)))
                               / Max (set (take (Suc t) ps))) [0..<length ps]))"
    by (simp add: cummax_def length_cummax_from)
next
  fix t
  assume "t < length (map2 fl_div (map2 fl_sub (map Fin ps) (cummax (map Fin ps)))
                        (cummax (map Fin ps)))"
  then have t: "t < length ps" by (simp add: cummax_def length_cummax_from)
  have len: "length (cummax (map Fin ps)) = length ps"
    by (simp add: cummax_def length_cummax_from)
  have "Max (set (take (Suc t) ps)) \<noteq> 0"
    using Max_prefix_pos [OF t assms] by simp
  with t len show "map2 fl_div (map2 fl_sub (map Fin ps) (cummax (map Fin ps)))
                     (cummax (map Fin ps)) ! t
        = map Fin (map (\<lambda>t. (ps ! t - Max (set (take (Suc t) ps)))
                               / Max (set (take (Suc t) ps))) [0..<length ps]) ! t"
    by (simp add: cummax_finite_nth fl_sub_Fin)
qed

lemma foldl_fl_min_finite:
  "foldl fl_min (Fin a) (map Fin ds) = Fin (Min (insert a (set ds)))"
proof (induction ds arbitrary: a)
  case Nil
  then show ?case by simp
next
  case (Cons d ds)
  have "Min (insert (min a d) (set ds)) = Min (insert a (insert d (set ds)))"
    by (cases "set ds = {}") (simp_all add: min.assoc)
  with Cons [of "min a d"] show ?case by (simp add: fl_min_Fin)
qed

lemma dropna_finite: "dropna (map Fin ds) = map Fin ds"
  by (induction ds) (simp_all add: dropna_def isna_def)

lemma min_s_finite:
  assumes "ds \<noteq> []"
  shows "min_s (map Fin ds) = Fin (Min (set ds))"
proof -
  from assms obtain d ds' where ds: "ds = d # ds'" by (cases ds) auto
  show ?thesis
    unfolding min_s_def dropna_finite
    by (simp add: ds foldl_fl_min_finite)
qed

lemma max_drawdown_finite:
  assumes "ps \<noteq> []" and "\<forall>p\<in>set ps. 0 < p"
  shows "calculate_max_drawdown (map Fin ps)
         = Fin (Min ((\<lambda>t. (ps ! t - Max (set (take (Suc t) ps)))
                            / Max (set (take (Suc t) ps))) ` {..<length ps}))"
proof -
  have "map (\<lambda>t. (ps ! t - Max (set (take (Suc t) ps))) / Max (set (take (Suc t) ps)))
          [0..<length ps] \<noteq> []"
    using assms(1) by simp
  from min_s_finite [OF this] show ?thesis
    unfolding calculate_max_drawdown_def Let_def drawdown_finite [OF assms(2)]
    by (simp add: atLeast0LessThan)
qed

lemma Max_prefix_sorted:
  fixes ps :: "real list"
  assumes "sorted ps" and "t < length ps"
  shows "Max (set (take (Suc t) ps)) = ps ! t"
proof (rule Max_eqI)
  show "finite (set (take (Suc t) ps))" by simp
next
  fix y assume "y \<in> set (take (Suc t) ps)"
  then obtain j where "j < length (take (Suc t) ps)" and "take (Suc t) ps ! j = y"
    by (auto simp: in_set_conv_nth)
  then have "j \<le> t" and "y = ps ! j" by simp_all
  with assms show "y \<le> ps ! t" by (simp add: sorted_nth_mono)
next
  have "take (Suc t) ps ! t = ps ! t" by simp
  moreover have "t < length (take (Suc t) ps)" using assms(2) by simp
  ultimately show "ps ! t \<in> set (take (Suc t) ps)"
    by (metis nth_mem)
qed

text \<open>
  Claim C8. For every non-empty price series of positive values, the maximum
  drawdown is the least of the values \<open>(P[t] - M[t]) / M[t]\<close>, where \<open>M[t]\<close> is the
  greatest of \<open>P[0], \<dots>, P[t]\<close>; it is 0 when the prices never decrease, and it is
  -0.2 for the prices 100, 80, 100.
\<close>
theorem max_drawdown_formula:
  assumes "ps \<noteq> []" and "\<forall>p\<in>set ps. 0 < p"
  shows "calculate_max_drawdown (map Fin ps)
           = Fin (Min ((\<lambda>t. (ps ! t - Max (set (take (Suc t) ps)))
                              / Max (set (take (Suc t) ps))) ` {..<length ps}))
         \<and> (sorted ps \<longrightarrow> calculate_max_drawdown (map Fin ps) = Fin 0)
         \<and> calculate_max_drawdown [Fin 100, Fin 80, Fin 100] = Fin (- 1 / 5)"
proof (intro conjI impI)
  show "calculate_max_drawdown (map Fin ps)
        = Fin (Min ((\<lambda>t. (ps ! t - Max (set (take (Suc t) ps)))
                           / Max (set (take (Suc t) ps))) ` {..<length ps}))"
    using assms by (rule max_drawdown_finite)
next
  assume s: "sorted ps"
  have "(\<lambda>t. (ps ! t - Max (set (take (Suc t) ps))) / Max (set (take (Suc t) ps)))
          ` {..<length ps} = {0}"
    using assms(1) by (auto simp: Max_prefix_sorted [OF s])
  then show "calculate_max_drawdown (map Fin ps) = Fin 0"
    by (simp add: max_drawdown_finite [OF assms])
next
  show "calculate_max_drawdown [Fin 100, Fin 80, Fin 100] = Fin (- 1 / 5)"
    by (simp add: calculate_max_drawdown_def cummax_def min_s_def dropna_def isna_def
                  Let_def fl_max_def fl_min_def fl_sub_def)
qed

theorem max_drawdown_formula_witness:
  "calculate_max_drawdown (map Fin [100, 110, 121]) = Fin 0"
  using max_drawdown_formula [of "[100, 110, 121]", THEN conjunct2, THEN conjunct1]
  by simp

section \<open>Sharpe ratio\<close>

lemma fl_div_zero_not_finite: "\<not> is_finite (fl_div x (Fin 0))"
  by (cases x) simp_all

lemma annualized_return_returns:
  assumes "returns \<noteq> []" and "periods_per_year \<noteq> 0"
  shows "\<exists>a. calculate_annualized_return returns periods_per_year = Inr a"
  using assms by (simp add: calculate_annualized_return_def Let_def del: fl_pow.simps)

lemma annualized_return_zero_periods:
  "calculate_annualized_return returns 0 = Inl ZeroDivisionError"
  by (simp add: calculate_annualized_return_def Let_def)

lemma sharpe_ratio_returns:
  assumes "returns \<noteq> []" and "periods_per_year \<noteq> 0"
  shows "\<exists>a. calculate_annualized_return returns periods_per_year = Inr a
             \<and> calculate_sharpe_ratio std returns rf periods_per_year
                 = Inr (fl_div (fl_sub a rf)
                          (calculate_volatility std returns periods_per_year))"
proof -
  from annualized_return_returns [OF assms] obtain a
    where "calculate_annualized_return returns periods_per_year = Inr a" ..
  then show ?thesis by (simp add: calculate_sharpe_ratio_def)
qed

text \<open>
  Claim C7 says that whenever the annualized volatility is zero the Sharpe ratio
  is the infinite or NaN result of dividing by it, and nothing intercepts the
  case. With \<open>periods_per_year = 0\<close> the volatility of the returns 0.5, 0.5 is
  zero, and \<open>calculate_sharpe_ratio\<close> raises ZeroDivisionError in the
  annualization, before the volatility is computed.
\<close>
theorem sharpe_ratio_zero_periods_counterexample:
  "calculate_volatility std_exact [Fin (1 / 2), Fin (1 / 2)] 0 = Fin 0
   \<and> calculate_sharpe_ratio std_exact [Fin (1 / 2), Fin (1 / 2)] (Fin (1 / 50)) 0
       = Inl ZeroDivisionError"
  by (simp add: calculate_volatility_def std_exact_def var_exact_def sum_fl_def dropna_def
                isna_def Let_def fl_sub_def calculate_sharpe_ratio_def
                annualized_return_zero_periods)

text \<open>
  Claim C7, as the code has it. For every non-empty return series and every
  \<open>periods_per_year\<close> other than 0, whatever \<open>std\<close> computes: when the annualized
  volatility is zero, \<open>calculate_sharpe_ratio\<close> raises nothing and returns the
  quotient of the excess return by that zero, which is infinite or NaN. With
  \<open>periods_per_year = 0\<close> it raises ZeroDivisionError. Which series have a zero
  volatility is left to \<open>std\<close>.
\<close>
theorem sharpe_ratio_zero_volatility:
  assumes "returns \<noteq> []"
  shows "(periods_per_year \<noteq> 0
            \<and> calculate_volatility std returns periods_per_year = Fin 0 \<longrightarrow>
            (\<exists>a. calculate_annualized_return returns periods_per_year = Inr a
                \<and> calculate_sharpe_ratio std returns rf periods_per_year
                    = Inr (fl_div (fl_sub a rf) (Fin 0))
                \<and> \<not> is_finite (fl_div (fl_sub a rf) (Fin 0))))
         \<and> (periods_per_year = 0 \<longrightarrow>
              calculate_sharpe_ratio std returns rf periods_per_year
                = Inl ZeroDivisionError)"
proof (intro conjI impI)
  assume "periods_per_year \<noteq> 0
          \<and> calculate_volatility std returns periods_per_year = Fin 0"
  then have p: "periods_per_year \<noteq> 0"
    and v: "calculate_volatility std returns periods_per_year = Fin 0" by simp_all
  from sharpe_ratio_returns [OF assms p, of std rf] v
  show "\<exists>a. calculate_annualized_return returns periods_per_year = Inr a
            \<and> calculate_sharpe_ratio std returns rf periods_per_year
                = Inr (fl_div (fl_sub a rf) (Fin 0))
            \<and> \<not> is_finite (fl_div (fl_sub a rf) (Fin 0))"
    by (auto simp: fl_div_zero_not_finite simp del: fl_div.simps)
next
  assume "periods_per_year = 0"
  then show "calculate_sharpe_ratio std returns rf periods_per_year = Inl ZeroDivisionError"
    by (simp add: calculate_sharpe_ratio_def annualized_return_zero_periods)
qed

theorem sharpe_ratio_zero_volatility_witness:
  "calculate_volatility std_exact [Fin (1 / 2), Fin (1 / 2)] 2 = Fin 0
   \<and> calculate_sharpe_ratio std_exact [Fin (1 / 2), Fin (1 / 2)] (Fin (1 / 4)) 2 = Inr PInf
   \<and> calculate_sharpe_ratio std_exact [Fin (1 / 2), Fin (1 / 2)] (Fin (1 / 4)) 0
       = Inl ZeroDivisionError"
proof -
  have v: "calculate_volatility std_exact [Fin (1 / 2), Fin (1 / 2)] 2 = Fin 0"
    by (simp add: calculate_volatility_def std_exact_def var_exact_def sum_fl_def dropna_def
                  isna_def Let_def fl_sub_def)
  have a: "calculate_annualized_return [Fin (1 / 2), Fin (1 / 2)] 2 = Inr (Fin (5 / 4))"
    by (simp add: calculate_annualized_return_def prod_s_def isna_def fl_sub_def)
  from sharpe_ratio_zero_volatility
         [of "[Fin (1 / 2), Fin (1 / 2)]" 2 std_exact "Fin (1 / 4)", THEN conjunct1] v a
  have s: "calculate_sharpe_ratio std_exact [Fin (1 / 2), Fin (1 / 2)] (Fin (1 / 4)) 2
           = Inr PInf"
    by (simp add: fl_sub_def)
  from sharpe_ratio_zero_volatility
         [of "[Fin (1 / 2), Fin (1 / 2)]" 0 std_exact "Fin (1 / 4)", THEN conjunct2]
  have z: "calculate_sharpe_ratio std_exact [Fin (1 / 2), Fin (1 / 2)] (Fin (1 / 4)) 0
           = Inl ZeroDivisionError"
    by simp
  from v s z show ?thesis by simp
qed

section \<open>Korean tickers\<close>

text \<open>
  Claim C9. A ticker that consists only of digits (a numeric code: at least one
  character, every character a digit) is forwarded to \<open>get_stock_data\<close> with the
  suffix \<^verbatim>\<open>.KS\<close> and the same start, end and period; a ticker with a character
  that is not a digit is forwarded unchanged. So is the empty ticker.
\<close>
theorem korean_ticker_suffix:
  "(ticker \<noteq> [] \<and> list_all is_digit_char ticker \<longrightarrow>
      get_korean_stock_data download ticker start end' period
        = get_stock_data download (Single (ticker @ ''.KS'')) start end' period)
   \<and> ((\<exists>c\<in>set ticker. \<not> is_digit_char c) \<longrightarrow>
      get_korean_stock_data download ticker start end' period
        = get_stock_data download (Single ticker) start end' period)
   \<and> get_korean_stock_data download [] start end' period
        = get_stock_data download (Single []) start end' period"
  by (auto simp: get_korean_stock_data_def isdigit_def list_all_iff)

theorem korean_ticker_suffix_witness:
  "get_korean_stock_data id ''005930'' None None ''1y''
     = DownloadPeriod (Single ''005930.KS'') ''1y''
   \<and> get_korean_stock_data id ''005930.KQ'' (Some ''2023-01-01'') (Some ''2023-12-31'') ''1y''
     = DownloadRange (Single ''005930.KQ'') ''2023-01-01'' ''2023-12-31''
   \<and> get_korean_stock_data id [CHR ''5'', CHR 0xB2] None None ''1y''
     = DownloadPeriod (Single ([CHR ''5'', CHR 0xB2] @ ''.KS'')) ''1y''"
  using korean_ticker_suffix [of "''005930''" id None None "''1y''"]
        korean_ticker_suffix [of "''005930.KQ''" id "Some ''2023-01-01''" "Some ''2023-12-31''" "''1y''"]
        korean_ticker_suffix [of "[CHR ''5'', CHR 0xB2]" id None None "''1y''"]
  by (simp add: get_stock_data_def is_digit_char_def)

end
